theory Spec2Isabelle
  imports Complex_Main "HOL-Library.Sublist" "HOL-Library.Multiset"
begin

section \<open>Retrieval core of the document question-answering client (src/src/App.jsx)\<close>

text \<open>
  The development embeds the pure and the stateful parts of \<^verbatim>\<open>App.jsx\<close> that the
  retrieval core consists of: \<^verbatim>\<open>tokenize\<close>, \<^verbatim>\<open>dot\<close>, \<^verbatim>\<open>cosineSim\<close>,
  \<^verbatim>\<open>fetchEmbedding\<close>, \<^verbatim>\<open>callAnswerAPI\<close>, the chunking loop of
  \<^verbatim>\<open>handleFileUpload\<close> and \<^verbatim>\<open>handleAsk\<close>.

  Conventions.
  \<^item> A JavaScript string is a \<open>string\<close>: a list of code units, of which the 8-bit
    ones are representable; \<^verbatim>\<open>.length\<close> is \<open>length\<close>.
  \<^item> A value that may be \<^verbatim>\<open>undefined\<close> or \<^verbatim>\<open>null\<close> is a \<open>jsval\<close>.
  \<^item> The arithmetic of JavaScript numbers is a parameter \<open>A\<close> of every function that
    computes with numbers (a record of the operations the code uses), and the type of
    the numbers is a type variable. What is proved for every \<open>A\<close> holds of IEEE-754
    doubles, with their rounding, overflow and NaN. Two instances are defined: the real
    numbers, and the numbers with infinities and NaN in which an operation overflows as
    it does on doubles.
  \<^item> The network is a pair of functions from a request to the response it receives,
    and every request that is sent is appended to a log.
\<close>

subsection \<open>JavaScript values\<close>

datatype 'a jsval = Undefined | Null | Val 'a

text \<open>ToBoolean on a value that is \<^verbatim>\<open>undefined\<close>, \<^verbatim>\<open>null\<close> or an array: arrays are
  truthy, also the empty one.\<close>

fun truthy_array :: "'a list jsval \<Rightarrow> bool" where
  "truthy_array Undefined = False"
| "truthy_array Null = False"
| "truthy_array (Val v) = True"

subsection \<open>Strings\<close>

definition code :: "char \<Rightarrow> nat" where
  "code c = of_char c"

text \<open>The character class \<^verbatim>\<open>[a-z0-9]\<close>.\<close>

definition is_alnum :: "char \<Rightarrow> bool" where
  "is_alnum c \<longleftrightarrow> (97 \<le> code c \<and> code c \<le> 122) \<or> (48 \<le> code c \<and> code c \<le> 57)"

text \<open>\<^verbatim>\<open>String.prototype.toLowerCase\<close> on 8-bit code units: \<^verbatim>\<open>A-Z\<close> and the
  capital letters of Latin-1 (C0 to DE without the multiplication sign D7) move up
  by 32, every other code unit stays.\<close>

definition lower_char :: "char \<Rightarrow> char" where
  "lower_char c =
     (if (65 \<le> code c \<and> code c \<le> 90) \<or> (192 \<le> code c \<and> code c \<le> 222 \<and> code c \<noteq> 215)
      then char_of (code c + 32) else c)"

definition toLowerCase :: "string \<Rightarrow> string" where
  "toLowerCase s = map lower_char s"

text \<open>\<^verbatim>\<open>s.split(/[^a-z0-9]+/)\<close>: the pieces between the maximal runs of characters
  outside \<^verbatim>\<open>[a-z0-9]\<close>, with the empty pieces that JavaScript produces when the
  string starts or ends with a separator (and \<^verbatim>\<open>[""]\<close> for the empty string).
  \<open>insep\<close> says that the scan is inside a separator run, \<open>cur\<close> is the piece being
  read.\<close>

fun split_scan :: "bool \<Rightarrow> string \<Rightarrow> string \<Rightarrow> string list" where
  "split_scan insep cur [] = [cur]"
| "split_scan insep cur (c # cs) =
     (if is_alnum c then split_scan False (cur @ [c]) cs
      else if insep then split_scan True cur cs
      else cur # split_scan True [] cs)"

definition split_non_alnum :: "string \<Rightarrow> string list" where
  "split_non_alnum s = split_scan False [] s"

text \<open>\<^verbatim>\<open>Array.prototype.join\<close> on strings.\<close>

fun join :: "string \<Rightarrow> string list \<Rightarrow> string" where
  "join sep [] = []"
| "join sep [x] = x"
| "join sep (x # y # ys) = x @ sep @ join sep (y # ys)"

text \<open>\<^verbatim>\<open>String.prototype.slice(i, j)\<close> for \<open>0 \<le> i \<le> j\<close>.\<close>

definition slice :: "string \<Rightarrow> nat \<Rightarrow> nat \<Rightarrow> string" where
  "slice s i j = take (j - i) (drop i s)"

text \<open>White space as \<^verbatim>\<open>String.prototype.trim\<close> sees it among the 8-bit code units:
  tab, line feed, vertical tab, form feed, carriage return, space, no-break space.\<close>

definition is_space :: "char \<Rightarrow> bool" where
  "is_space c \<longleftrightarrow> code c \<in> {9, 10, 11, 12, 13, 32, 160}"

definition trim :: "string \<Rightarrow> string" where
  "trim s = rev (dropWhile is_space (rev (dropWhile is_space s)))"

subsection \<open>tokenize (App.jsx, lines 27-33)\<close>

text \<open>\<^verbatim>\<open>if (!str) return [];\<close> covers \<^verbatim>\<open>undefined\<close> (\<open>None\<close>) and the empty string;
  \<^verbatim>\<open>.filter(Boolean)\<close> drops the empty pieces.\<close>

definition tokenize :: "string option \<Rightarrow> string list" where
  "tokenize str =
     (case str of
        None \<Rightarrow> []
      | Some s \<Rightarrow>
          if s = [] then []
          else filter (\<lambda>t. t \<noteq> []) (split_non_alnum (toLowerCase s)))"

subsection \<open>dot and cosineSim (App.jsx, lines 37-53)\<close>

text \<open>The operations on JavaScript numbers that the code uses: the literal \<^verbatim>\<open>0\<close>,
  \<^verbatim>\<open>+\<close>, \<^verbatim>\<open>*\<close>, \<^verbatim>\<open>/\<close>, \<^verbatim>\<open>Math.sqrt\<close>, ToBoolean (a number is falsy when it is
  \<^verbatim>\<open>0\<close>, \<^verbatim>\<open>-0\<close> or NaN), \<^verbatim>\<open>-\<close>, the test \<^verbatim>\<open>> 0\<close> that \<^verbatim>\<open>Array.prototype.sort\<close>
  makes on the result of a comparison, and the number that the \<^verbatim>\<open>length\<close> of an array
  is.\<close>

record 'n arith =
  num_zero :: 'n
  num_add :: "'n \<Rightarrow> 'n \<Rightarrow> 'n"
  num_mul :: "'n \<Rightarrow> 'n \<Rightarrow> 'n"
  num_div :: "'n \<Rightarrow> 'n \<Rightarrow> 'n"
  num_sqrt :: "'n \<Rightarrow> 'n"
  num_truthy :: "'n \<Rightarrow> bool"
  num_sub :: "'n \<Rightarrow> 'n \<Rightarrow> 'n"
  num_positive :: "'n \<Rightarrow> bool"
  num_of_nat :: "nat \<Rightarrow> 'n"

text \<open>The instance of the real numbers: no rounding, no overflow, no NaN.\<close>

definition js_real :: "real arith" where
  "js_real = \<lparr>num_zero = 0, num_add = (\<lambda>x y. x + y), num_mul = (\<lambda>x y. x * y),
              num_div = (\<lambda>x y. x / y), num_sqrt = sqrt, num_truthy = (\<lambda>x. x \<noteq> 0),
              num_sub = (\<lambda>x y. x - y), num_positive = (\<lambda>x. 0 < x), num_of_nat = real\<rparr>"

text \<open>The instance with the special values of IEEE-754 doubles. A finite number is a
  real number; an operation on finite numbers whose exact result is beyond the largest
  double, \<open>2\<^sup>1\<^sup>0\<^sup>2\<^sup>4 - 2\<^sup>9\<^sup>7\<^sup>1\<close>, gives an infinity; the infinities and NaN combine as on
  doubles. Results are not rounded and zero has no sign, so the instance computes what
  doubles compute wherever the exact results are doubles and no zero is divided by.\<close>

datatype jsnum = Finite real | PosInf | NegInf | NaN

definition max_double :: real where
  "max_double = 2 ^ 1024 - 2 ^ 971"

definition overflow :: "real \<Rightarrow> jsnum" where
  "overflow r = (if max_double < r then PosInf else if r < - max_double then NegInf else Finite r)"

fun jsnum_neg :: "jsnum \<Rightarrow> jsnum" where
  "jsnum_neg (Finite x) = Finite (- x)"
| "jsnum_neg PosInf = NegInf"
| "jsnum_neg NegInf = PosInf"
| "jsnum_neg NaN = NaN"

fun jsnum_add :: "jsnum \<Rightarrow> jsnum \<Rightarrow> jsnum" where
  "jsnum_add NaN y = NaN"
| "jsnum_add x NaN = NaN"
| "jsnum_add (Finite x) (Finite y) = overflow (x + y)"
| "jsnum_add PosInf NegInf = NaN"
| "jsnum_add NegInf PosInf = NaN"
| "jsnum_add PosInf y = PosInf"
| "jsnum_add x PosInf = PosInf"
| "jsnum_add NegInf y = NegInf"
| "jsnum_add x NegInf = NegInf"

fun jsnum_mul :: "jsnum \<Rightarrow> jsnum \<Rightarrow> jsnum" where
  "jsnum_mul NaN y = NaN"
| "jsnum_mul x NaN = NaN"
| "jsnum_mul (Finite x) (Finite y) = overflow (x * y)"
| "jsnum_mul (Finite x) PosInf = (if x = 0 then NaN else if 0 < x then PosInf else NegInf)"
| "jsnum_mul (Finite x) NegInf = (if x = 0 then NaN else if 0 < x then NegInf else PosInf)"
| "jsnum_mul PosInf (Finite y) = (if y = 0 then NaN else if 0 < y then PosInf else NegInf)"
| "jsnum_mul NegInf (Finite y) = (if y = 0 then NaN else if 0 < y then NegInf else PosInf)"
| "jsnum_mul PosInf PosInf = PosInf"
| "jsnum_mul NegInf NegInf = PosInf"
| "jsnum_mul PosInf NegInf = NegInf"
| "jsnum_mul NegInf PosInf = NegInf"

fun jsnum_div :: "jsnum \<Rightarrow> jsnum \<Rightarrow> jsnum" where
  "jsnum_div NaN y = NaN"
| "jsnum_div x NaN = NaN"
| "jsnum_div (Finite x) (Finite y) =
     (if y = 0 then (if x = 0 then NaN else if 0 < x then PosInf else NegInf)
      else overflow (x / y))"
| "jsnum_div (Finite x) PosInf = Finite 0"
| "jsnum_div (Finite x) NegInf = Finite 0"
| "jsnum_div PosInf (Finite y) = (if 0 \<le> y then PosInf else NegInf)"
| "jsnum_div NegInf (Finite y) = (if 0 \<le> y then NegInf else PosInf)"
| "jsnum_div PosInf PosInf = NaN"
| "jsnum_div PosInf NegInf = NaN"
| "jsnum_div NegInf PosInf = NaN"
| "jsnum_div NegInf NegInf = NaN"

fun jsnum_sqrt :: "jsnum \<Rightarrow> jsnum" where
  "jsnum_sqrt (Finite x) = (if x < 0 then NaN else Finite (sqrt x))"
| "jsnum_sqrt PosInf = PosInf"
| "jsnum_sqrt NegInf = NaN"
| "jsnum_sqrt NaN = NaN"

fun jsnum_truthy :: "jsnum \<Rightarrow> bool" where
  "jsnum_truthy (Finite x) = (x \<noteq> 0)"
| "jsnum_truthy PosInf = True"
| "jsnum_truthy NegInf = True"
| "jsnum_truthy NaN = False"

fun jsnum_positive :: "jsnum \<Rightarrow> bool" where
  "jsnum_positive (Finite x) = (0 < x)"
| "jsnum_positive PosInf = True"
| "jsnum_positive NegInf = False"
| "jsnum_positive NaN = False"

definition js_exact :: "jsnum arith" where
  "js_exact = \<lparr>num_zero = Finite 0, num_add = jsnum_add, num_mul = jsnum_mul,
               num_div = jsnum_div, num_sqrt = jsnum_sqrt, num_truthy = jsnum_truthy,
               num_sub = (\<lambda>x y. jsnum_add x (jsnum_neg y)), num_positive = jsnum_positive,
               num_of_nat = (\<lambda>n. overflow (real n))\<rparr>"

text \<open>\<^verbatim>\<open>for (let i = 0; i < len; i++) sum += a[i] * b[i];\<close>\<close>

function dot_loop :: "'n arith \<Rightarrow> 'n list \<Rightarrow> 'n list \<Rightarrow> nat \<Rightarrow> nat \<Rightarrow> 'n \<Rightarrow> 'n" where
  "dot_loop A a b len i s =
     (if i < len then dot_loop A a b len (i + 1) (num_add A s (num_mul A (a ! i) (b ! i)))
      else s)"
  by pat_completeness auto
termination
  by (relation "measure (\<lambda>(A, a, b, len, i, s). len - i)") auto

definition dot :: "'n arith \<Rightarrow> 'n list \<Rightarrow> 'n list \<Rightarrow> 'n" where
  "dot A a b = (let len = min (length a) (length b) in dot_loop A a b len 0 (num_zero A))"

text \<open>\<^verbatim>\<open>let mag = 0; for (const x of v) mag += x * x;\<close>\<close>

definition sum_squares :: "'n arith \<Rightarrow> 'n list \<Rightarrow> 'n" where
  "sum_squares A v = foldl (\<lambda>mag x. num_add A mag (num_mul A x x)) (num_zero A) v"

definition cosineSim :: "'n arith \<Rightarrow> 'n list \<Rightarrow> 'n list \<Rightarrow> 'n" where
  "cosineSim A a b =
     (let num = dot A a b;
          magA = sum_squares A a;
          magB = sum_squares A b
      in if num_truthy A magA \<and> num_truthy A magB
         then num_div A num (num_sqrt A (num_mul A magA magB))
         else num_zero A)"

subsection \<open>The network: fetchEmbedding and callAnswerAPI (App.jsx, lines 59-94)\<close>

text \<open>What \<^verbatim>\<open>await resp.json()\<close> followed by the read of one property gives: the
  promise rejects (the body is not JSON), the body is the JSON \<^verbatim>\<open>null\<close> (the property
  read then throws a TypeError), or the body is another JSON value, of which only the
  property that is read matters: absent (\<open>Undefined\<close>), \<^verbatim>\<open>null\<close> or a value of the
  type that the client expects (an array of numbers, a string). A property of another
  type is not represented.\<close>

datatype 'a body = NotJson | JsonNull | JsonData "'a jsval"

text \<open>\<^verbatim>\<open>fetch\<close> rejects, or resolves to a response with a status and a body.\<close>

datatype 'a response = NetworkError | Http nat "'a body"

text \<open>\<^verbatim>\<open>resp.ok\<close>: the status is in the range 200-299.\<close>

definition ok :: "nat \<Rightarrow> bool" where
  "ok status \<longleftrightarrow> 200 \<le> status \<and> status \<le> 299"

datatype request = EmbedRequest string | AnswerRequest string string

record 'n network =
  embed_api :: "string \<Rightarrow> 'n list response"
  answer_api :: "string \<Rightarrow> string \<Rightarrow> string response"

datatype js_error = FetchRejected | Error string | SyntaxError | TypeError

text \<open>The body of a \<^verbatim>\<open>try\<close> block: \<open>Inl\<close> is what it throws, \<open>Inr\<close> what it returns.\<close>

definition try_read :: "string \<Rightarrow> 'a response \<Rightarrow> js_error + 'a jsval" where
  "try_read msg resp =
     (case resp of
        NetworkError \<Rightarrow> Inl FetchRejected
      | Http status body \<Rightarrow>
          if \<not> ok status then Inl (Error msg)
          else (case body of
                  NotJson \<Rightarrow> Inl SyntaxError
                | JsonNull \<Rightarrow> Inl TypeError
                | JsonData v \<Rightarrow> Inr v))"

definition fetchEmbedding ::
  "'n network \<Rightarrow> string \<Rightarrow> request list \<Rightarrow> 'n list jsval \<times> request list" where
  "fetchEmbedding net input reqs =
     (let resp = embed_api net input;
          sent = reqs @ [EmbedRequest input]
      in case try_read ''embed failed'' resp of
           Inl err \<Rightarrow> (Null, sent)
         | Inr embedding \<Rightarrow> (embedding, sent))"

definition fallback_answer :: string where
  "fallback_answer = ''Sorry, I was unable to generate an answer at this time.''"

definition callAnswerAPI ::
  "'n network \<Rightarrow> string \<Rightarrow> string \<Rightarrow> request list \<Rightarrow> string jsval \<times> request list" where
  "callAnswerAPI net context question reqs =
     (let resp = answer_api net context question;
          sent = reqs @ [AnswerRequest context question]
      in case try_read ''answer failed'' resp of
           Inl err \<Rightarrow> (Val fallback_answer, sent)
         | Inr answer \<Rightarrow> (answer, sent))"

subsection \<open>The state of the component\<close>

record doc =
  doc_id :: string
  name :: string
  pages :: nat
  content :: string

record 'n chunk =
  ident :: string
  docId :: string
  "text" :: string
  embedding :: "'n list jsval"

record 'n scored_chunk = "'n chunk" +
  score :: 'n

record 'n answer =
  answer_text :: "string jsval"
  sources :: "'n scored_chunk list"

record 'n app_state =
  docs :: "doc list"
  index :: "'n chunk list"
  query :: string
  answer :: "'n answer option"

subsection \<open>Ingestion: the body of handleFileUpload (App.jsx, lines 198-218)\<close>

definition chunk_size :: nat where
  "chunk_size = 500"

text \<open>The chunking loop of one file. \<open>uuid\<close> is the stream of identifiers that
  \<^verbatim>\<open>uuid()\<close> returns, \<open>k\<close> the number of identifiers drawn so far.\<close>

function chunk_loop ::
  "'n network \<Rightarrow> (nat \<Rightarrow> string) \<Rightarrow> string \<Rightarrow> string \<Rightarrow> nat
     \<Rightarrow> nat \<Rightarrow> request list \<Rightarrow> 'n chunk list \<Rightarrow> nat \<times> request list \<times> 'n chunk list" where
  "chunk_loop net uuid d doc_text i k reqs newChunks =
     (if i < length doc_text then
        let chunkText = slice doc_text i (i + chunk_size);
            chunkId = uuid k;
            fetched = fetchEmbedding net chunkText reqs
        in chunk_loop net uuid d doc_text (i + chunk_size) (k + 1) (snd fetched)
             (newChunks @ [\<lparr>ident = chunkId, docId = d, text = chunkText, embedding = fst fetched\<rparr>])
      else (k, reqs, newChunks))"
  by pat_completeness auto
termination
  by (relation "measure (\<lambda>(net, uuid, d, doc_text, i, k, reqs, newChunks). length doc_text - i)")
     (auto simp: chunk_size_def)

text \<open>One iteration of \<^verbatim>\<open>for (const file of files)\<close>. A file is given by its name
  and by what \<^verbatim>\<open>extractPdf(file)\<close> resolved to: the text and the number of pages (the
  empty text and 0 when the extraction failed).\<close>

definition upload_file ::
  "'n network \<Rightarrow> (nat \<Rightarrow> string) \<Rightarrow> string \<times> string \<times> nat
     \<Rightarrow> 'n app_state \<times> nat \<times> request list \<Rightarrow> 'n app_state \<times> nat \<times> request list" where
  "upload_file net uuid file w =
     (case (file, w) of ((file_name, doc_text, pgs), (st, k, reqs)) \<Rightarrow>
        let d = uuid k;
            newDoc = \<lparr>doc_id = d, name = file_name, pages = pgs, content = doc_text\<rparr>;
            (k', reqs', newChunks) = chunk_loop net uuid d doc_text 0 (k + 1) reqs []
        in (st\<lparr>docs := docs st @ [newDoc], index := index st @ newChunks\<rparr>, k', reqs'))"

definition handleFileUpload ::
  "'n network \<Rightarrow> (nat \<Rightarrow> string) \<Rightarrow> (string \<times> string \<times> nat) list
     \<Rightarrow> 'n app_state \<times> nat \<times> request list \<Rightarrow> 'n app_state \<times> nat \<times> request list" where
  "handleFileUpload net uuid files w = foldl (\<lambda>w file. upload_file net uuid file w) w files"

subsection \<open>Asking: handleAsk (App.jsx, lines 224-247)\<close>

text \<open>\<^verbatim>\<open>{ ...ch, score: s }\<close>\<close>

definition with_score :: "'n chunk \<Rightarrow> 'n \<Rightarrow> 'n scored_chunk" where
  "with_score ch s =
     \<lparr>ident = ident ch, docId = docId ch, text = chunk.text ch, embedding = embedding ch, score = s\<rparr>"

text \<open>\<^verbatim>\<open>ch.embedding || []\<close>\<close>

fun or_empty :: "'a list jsval \<Rightarrow> 'a list" where
  "or_empty (Val v) = v"
| "or_empty Undefined = []"
| "or_empty Null = []"

text \<open>The number of matches of the fallback path:
  \<^verbatim>\<open>qTokens.filter(t => cTokens.includes(t)).length\<close>.\<close>

definition matches :: "string list \<Rightarrow> string \<Rightarrow> nat" where
  "matches qTokens chunkText =
     (let cTokens = tokenize (Some chunkText)
      in length (filter (\<lambda>t. t \<in> set cTokens) qTokens))"

text \<open>Lines 230-241: the scored chunks. \<^verbatim>\<open>if (qEmbedding)\<close> holds for an array, also
  for the empty one, and fails for \<^verbatim>\<open>null\<close> and \<^verbatim>\<open>undefined\<close>.\<close>

definition scoreChunks ::
  "'n arith \<Rightarrow> 'n list jsval \<Rightarrow> string \<Rightarrow> 'n chunk list \<Rightarrow> 'n scored_chunk list" where
  "scoreChunks A qEmbedding question idx =
     (if truthy_array qEmbedding then
        map (\<lambda>ch. with_score ch (cosineSim A (or_empty qEmbedding) (or_empty (embedding ch)))) idx
      else
        let qTokens = tokenize (Some question)
        in map (\<lambda>ch. with_score ch (num_of_nat A (matches qTokens (chunk.text ch)))) idx)"

text \<open>\<^verbatim>\<open>Array.prototype.sort\<close> with a comparison function is a stable sort
  (ECMAScript 2019). It is written here as the insertion sort that takes the elements
  from the right: an element moves behind another one only when \<open>after\<close> holds of the
  two, that is, when the comparison function gives a positive number for them. For a
  comparison that orders the elements consistently this is what every conforming sort
  computes.\<close>

fun insert_by :: "('a \<Rightarrow> 'a \<Rightarrow> bool) \<Rightarrow> 'a \<Rightarrow> 'a list \<Rightarrow> 'a list" where
  "insert_by after x [] = [x]"
| "insert_by after x (y # ys) = (if after x y then y # insert_by after x ys else x # y # ys)"

definition sort_by :: "('a \<Rightarrow> 'a \<Rightarrow> bool) \<Rightarrow> 'a list \<Rightarrow> 'a list" where
  "sort_by after xs = foldr (insert_by after) xs []"

text \<open>Lines 242-243: \<^verbatim>\<open>scored.sort((a, b) => b.score - a.score); scored.slice(0, 5)\<close>\<close>

definition top_chunks :: "'n arith \<Rightarrow> 'n scored_chunk list \<Rightarrow> 'n scored_chunk list" where
  "top_chunks A scored =
     take 5 (sort_by (\<lambda>a b. num_positive A (num_sub A (score b) (score a))) scored)"

text \<open>Line 244: \<^verbatim>\<open>top.map(ch => ch.text).join('\n---\n')\<close>\<close>

definition separator :: string where
  "separator = [CHR 0x0A, CHR ''-'', CHR ''-'', CHR ''-'', CHR 0x0A]"

definition context_of :: "'n scored_chunk list \<Rightarrow> string" where
  "context_of tops = join separator (map chunk.text tops)"

text \<open>The state and the request log after the promise of \<^verbatim>\<open>handleAsk\<close> has settled.
  \<^verbatim>\<open>setAnswer(null)\<close> comes after the test of the question and is overwritten by the
  \<^verbatim>\<open>setAnswer\<close> of the last line; neither client throws, so the last line is reached.\<close>

definition handleAsk ::
  "'n arith \<Rightarrow> 'n network \<Rightarrow> 'n app_state \<Rightarrow> request list \<Rightarrow> 'n app_state \<times> request list" where
  "handleAsk A net st reqs =
     (let question = trim (query st) in
      if question = [] then (st, reqs)
      else
        let (qEmbedding, reqs1) = fetchEmbedding net question reqs;
            scored = scoreChunks A qEmbedding question (index st);
            tops = top_chunks A scored;
            context = context_of tops;
            (answerText, reqs2) = callAnswerAPI net context question reqs1
        in (st\<lparr>answer := Some \<lparr>answer_text = answerText, sources = tops\<rparr>\<rparr>, reqs2))"

subsection \<open>Notions of the specification\<close>

text \<open>Following the specification (section 6): the body that is expected of a success
  response is an object with the property that the client reads (\<^verbatim>\<open>embedding\<close>,
  \<^verbatim>\<open>answer\<close>). A body is malformed when it is anything else: not JSON, the JSON
  \<^verbatim>\<open>null\<close>, or a JSON value in which the property is absent or \<^verbatim>\<open>null\<close>.\<close>

fun malformed :: "'a body \<Rightarrow> bool" where
  "malformed NotJson = True"
| "malformed JsonNull = True"
| "malformed (JsonData Undefined) = True"
| "malformed (JsonData Null) = True"
| "malformed (JsonData (Val v)) = False"

text \<open>Following the specification: a provider failure is a network error, a status
  that is not a success status, or a malformed body.\<close>

fun provider_failure :: "'a response \<Rightarrow> bool" where
  "provider_failure NetworkError = True"
| "provider_failure (Http status body) = (\<not> ok status \<or> malformed body)"

text \<open>The responses on which the \<^verbatim>\<open>try\<close> block of a client throws, so that its
  \<^verbatim>\<open>catch\<close> block answers: a network error, a status that is not a success status, a
  body that is not JSON or is the JSON \<^verbatim>\<open>null\<close>.\<close>

fun caught_failure :: "'a response \<Rightarrow> bool" where
  "caught_failure NetworkError = True"
| "caught_failure (Http status body) = (\<not> ok status \<or> body = NotJson \<or> body = JsonNull)"

text \<open>Following the specification's words for the fallback score: the number of query
  token occurrences that have at least one occurrence among the chunk's tokens.\<close>

definition occurrences_present :: "string list \<Rightarrow> string list \<Rightarrow> nat" where
  "occurrences_present qTokens cTokens = card {i. i < length qTokens \<and> qTokens ! i \<in> set cTokens}"

text \<open>The comparison \<^verbatim>\<open>b.score - a.score\<close> orders the scores \<open>xs\<close> as \<open>key\<close> does: it is
  positive exactly when the key of \<open>b\<close>'s score is the greater one. On doubles without
  NaN the value of the double is such a key.\<close>

definition ordered_by :: "'n arith \<Rightarrow> ('n \<Rightarrow> real) \<Rightarrow> 'n list \<Rightarrow> bool" where
  "ordered_by A key xs \<longleftrightarrow>
     (\<forall>x \<in> set xs. \<forall>y \<in> set xs. num_positive A (num_sub A y x) \<longleftrightarrow> key x < key y)"

subsection \<open>Concrete inputs\<close>

text \<open>A network whose embedding provider answers 500 and whose generation provider
  answers 429; a network whose providers answer 200 with a JSON body that has neither
  an \<^verbatim>\<open>embedding\<close> nor an \<^verbatim>\<open>answer\<close>; a stream of identifiers; and the state of a
  session that has just started.\<close>

definition ex_net_down :: "real network" where
  "ex_net_down = \<lparr>embed_api = (\<lambda>input. Http 500 NotJson),
                   answer_api = (\<lambda>context question. Http 429 NotJson)\<rparr>"

definition ex_net_shape :: "real network" where
  "ex_net_shape = \<lparr>embed_api = (\<lambda>input. Http 200 (JsonData Undefined)),
                    answer_api = (\<lambda>context question. Http 200 (JsonData Undefined))\<rparr>"

definition ex_uuid :: "nat \<Rightarrow> string" where
  "ex_uuid k = ''id-'' @ replicate k (CHR ''x'')"

definition ex_empty :: "real app_state" where
  "ex_empty = \<lparr>docs = [], index = [], query = [], answer = None\<rparr>"

text \<open>Two chunks, a state whose index holds them and whose query is the question of
  the closing procedure, and a scored chunk with a text of full size.\<close>

definition ex_store :: "real chunk" where
  "ex_store = \<lparr>ident = ''c-1'', docId = ''d-1'', text = ''closing procedure for the store'',
               embedding = Null\<rparr>"

definition ex_bread :: "real chunk" where
  "ex_bread = \<lparr>ident = ''c-2'', docId = ''d-1'', text = ''Fresh bread is baked daily.'',
               embedding = Val [0, 1]\<rparr>"

definition ex_state :: "real app_state" where
  "ex_state = \<lparr>docs = [], index = [ex_bread, ex_store],
               query = ''  How do I close the store? '', answer = None\<rparr>"

definition ex_full :: "real scored_chunk" where
  "ex_full = \<lparr>ident = ''c-3'', docId = ''d-2'', text = replicate 500 (CHR ''a''),
               embedding = Null, score = 1\<rparr>"

text \<open>An ask on doubles: the embedding provider gives the question the embedding
  \<open>[2\<^sup>5\<^sup>0\<^sup>0, 0]\<close>, and the index holds three chunks with the embeddings \<open>[0, 1]\<close>,
  \<open>[2\<^sup>6\<^sup>0\<^sup>0, 0]\<close> and \<open>[1, 0]\<close>. All these numbers are doubles.\<close>

definition two_500 :: real where
  "two_500 = 2 ^ 500"

definition two_600 :: real where
  "two_600 = 2 ^ 600"

definition ex_net_big :: "jsnum network" where
  "ex_net_big = \<lparr>embed_api = (\<lambda>input. Http 200 (JsonData (Val [Finite two_500, Finite 0]))),
                  answer_api = (\<lambda>context question. Http 200 (JsonData (Val ''Ask the manager.'')))\<rparr>"

definition ex_across :: "jsnum chunk" where
  "ex_across = \<lparr>ident = ''c-4'', docId = ''d-3'', text = ''opening hours'',
                embedding = Val [Finite 0, Finite 1]\<rparr>"

definition ex_huge :: "jsnum chunk" where
  "ex_huge = \<lparr>ident = ''c-5'', docId = ''d-3'', text = ''cleaning the slicer'',
              embedding = Val [Finite two_600, Finite 0]\<rparr>"

definition ex_along :: "jsnum chunk" where
  "ex_along = \<lparr>ident = ''c-6'', docId = ''d-3'', text = ''closing the store'',
               embedding = Val [Finite 1, Finite 0]\<rparr>"

definition ex_state_big :: "jsnum app_state" where
  "ex_state_big = \<lparr>docs = [], index = [ex_across, ex_huge, ex_along],
                   query = ''closing'', answer = None\<rparr>"

section \<open>Properties\<close>

text \<open>The equations of the two loops rewrite a call to a term with the same call in
  it; they are applied by hand.\<close>

declare dot_loop.simps [simp del]

declare chunk_loop.simps [simp del]

subsection \<open>Tokenizer\<close>

lemma split_scan_word:
  "list_all is_alnum w \<Longrightarrow> split_scan insep cur w = [cur @ w]"
  by (induction w arbitrary: insep cur) auto

lemma split_scan_alnum:
  "list_all is_alnum cur \<Longrightarrow> list_all (list_all is_alnum) (split_scan insep cur s)"
  by (induction s arbitrary: insep cur) auto

lemma split_scan_insep:
  "filter (\<lambda>t. t \<noteq> []) (split_scan True [] s) = filter (\<lambda>t. t \<noteq> []) (split_scan False [] s)"
  by (cases s) auto

lemma split_scan_separator:
  assumes "\<not> is_alnum d" and "insep \<Longrightarrow> cur = []"
  shows "filter (\<lambda>t. t \<noteq> []) (split_scan insep cur (u @ d # v))
       = filter (\<lambda>t. t \<noteq> []) (split_scan insep cur u)
         @ filter (\<lambda>t. t \<noteq> []) (split_scan False [] v)"
  using assms
proof (induction u arbitrary: insep cur)
  case Nil
  then show ?case by (cases insep) (auto simp: split_scan_insep)
next
  case (Cons c u)
  show ?case
  proof (cases "is_alnum c")
    case True
    then show ?thesis using Cons.IH [of False "cur @ [c]"] Cons.prems by simp
  next
    case False
    then show ?thesis
      using Cons.IH [of True "[]"] Cons.IH [of True cur] Cons.prems by (cases insep) auto
  qed
qed

lemma tokenize_Some:
  "tokenize (Some s) = filter (\<lambda>t. t \<noteq> []) (split_scan False [] (toLowerCase s))"
  by (simp add: tokenize_def split_non_alnum_def toLowerCase_def)

lemma lower_char_fixes_alnum: "is_alnum c \<Longrightarrow> lower_char c = c"
  by (auto simp: is_alnum_def lower_char_def)

lemma lower_char_space: "lower_char (CHR '' '') = CHR '' ''"
  by (simp add: lower_char_def code_def)

lemma not_alnum_space: "\<not> is_alnum (CHR '' '')"
  by (simp add: is_alnum_def code_def)

lemma toLowerCase_fixes_alnum: "list_all is_alnum w \<Longrightarrow> toLowerCase w = w"
  by (induction w) (auto simp: toLowerCase_def lower_char_fixes_alnum)

lemma tokenize_tokens_alnum:
  "list_all (\<lambda>t. t \<noteq> [] \<and> list_all is_alnum t) (tokenize str)"
proof (cases str)
  case None
  then show ?thesis by (simp add: tokenize_def)
next
  case (Some s)
  have "list_all (list_all is_alnum) (split_scan False [] (toLowerCase s))"
    by (rule split_scan_alnum) simp
  then show ?thesis
    unfolding Some tokenize_Some by (auto simp: list_all_iff)
qed

lemma tokenize_separator:
  assumes "\<not> is_alnum (lower_char d)"
  shows "tokenize (Some (u @ d # v)) = tokenize (Some u) @ tokenize (Some v)"
  using split_scan_separator [OF assms, of False "[]" "toLowerCase u" "toLowerCase v"]
  by (simp add: tokenize_Some toLowerCase_def)

lemma tokenize_word:
  assumes "w \<noteq> []" and "list_all is_alnum (toLowerCase w)"
  shows "tokenize (Some w) = [toLowerCase w]"
  using assms split_scan_word [of "toLowerCase w" False "[]"]
  by (simp add: tokenize_Some toLowerCase_def)

lemma tokenize_join_words:
  "list_all (\<lambda>t. t \<noteq> [] \<and> list_all is_alnum t) ts \<Longrightarrow> tokenize (Some (join '' '' ts)) = ts"
proof (induction "'' ''" ts rule: join.induct)
  case 1
  then show ?case by (simp add: tokenize_def)
next
  case (2 x)
  then show ?case by (simp add: tokenize_word toLowerCase_fixes_alnum)
next
  case (3 x y ys)
  have "tokenize (Some (x @ CHR '' '' # join '' '' (y # ys)))
        = tokenize (Some x) @ tokenize (Some (join '' '' (y # ys)))"
    by (rule tokenize_separator) (simp add: lower_char_space not_alnum_space)
  with 3 show ?case by (simp add: tokenize_word toLowerCase_fixes_alnum)
qed

text \<open>
  \<^bold>\<open>C9.\<close> \<^verbatim>\<open>tokenize\<close> returns the empty sequence for \<^verbatim>\<open>undefined\<close> and for the
  empty string. Every token it returns is a non-empty string over \<^verbatim>\<open>[a-z0-9]\<close>. A
  character that is outside \<^verbatim>\<open>[a-z0-9]\<close> after lowercasing delimits: the tokens of
  \<open>u @ d # v\<close> are those of \<open>u\<close> followed by those of \<open>v\<close>; a non-empty string that
  is alphanumeric after lowercasing is one token, its lowercase form. And
  \<^verbatim>\<open>tokenize(tokenize(s).join(" ")) == tokenize(s)\<close>.
\<close>

theorem tokenize_spec:
  "tokenize None = [] \<and> tokenize (Some []) = []
   \<and> list_all (\<lambda>t. t \<noteq> [] \<and> list_all is_alnum t) (tokenize str)
   \<and> (\<not> is_alnum (lower_char d) \<longrightarrow>
        tokenize (Some (u @ d # v)) = tokenize (Some u) @ tokenize (Some v))
   \<and> (w \<noteq> [] \<and> list_all is_alnum (toLowerCase w) \<longrightarrow> tokenize (Some w) = [toLowerCase w])
   \<and> tokenize (Some (join '' '' (tokenize str))) = tokenize str"
  using tokenize_tokens_alnum [of str] tokenize_separator [of d u v] tokenize_word [of w]
    tokenize_join_words [of "tokenize str"]
  by (simp add: tokenize_def)

theorem tokenize_spec_witness:
  "tokenize (Some (''Close'' @ CHR '','' # ''the STORE'')) = tokenize (Some ''Close'') @ tokenize (Some ''the STORE'')
   \<and> tokenize (Some ''Ab1'') = [toLowerCase ''Ab1'']
   \<and> tokenize (Some (join '' '' (tokenize (Some ''Close, the STORE?'')))) = tokenize (Some ''Close, the STORE?'')"
proof -
  have sep: "\<not> is_alnum (lower_char (CHR '',''))"
    by code_simp
  have word: "''Ab1'' \<noteq> [] \<and> list_all is_alnum (toLowerCase ''Ab1'')"
    by code_simp
  show ?thesis
    using sep word
      tokenize_spec [of "Some ''Close, the STORE?''" "CHR '',''" "''Close''" "''the STORE''" "''Ab1''"]
    by blast
qed

subsection \<open>Chunker\<close>

lemma ceil_step: "0 < (m::nat) \<Longrightarrow> (m + 499) div 500 = Suc ((m - 500 + 499) div 500)"
proof -
  assume pos: "0 < m"
  then have "m + 499 = (m - 1) + 500" by simp
  then have "(m + 499) div 500 = (m - 1) div 500 + 1"
    by (metis div_add_self2 zero_neq_numeral)
  moreover have "(m - 500 + 499) div 500 = (m - 1) div 500"
  proof (cases "500 \<le> m")
    case True
    then have "m - 500 + 499 = m - 1" by simp
    then show ?thesis by simp
  next
    case False
    then show ?thesis by simp
  qed
  ultimately show ?thesis by simp
qed

lemma ceiling_chunks: "\<lceil>real n / 500\<rceil> = int ((n + 499) div 500)"
proof -
  have "real n / 500 = of_int (int n) / of_int 500" by simp
  then have "\<lceil>real n / 500\<rceil> = - (- int n div 500)"
    by (simp only: ceiling_divide_eq_div)
  also have "\<dots> = int ((n + 499) div 500)"
    by (simp add: zdiv_int)
  finally show ?thesis .
qed

lemma chunk_loop_stop:
  "\<not> i < length t \<Longrightarrow> chunk_loop net gen d t i k reqs acc = (k, reqs, acc)"
  by (simp add: chunk_loop.simps)

lemma chunk_loop_step:
  "i < length t \<Longrightarrow> snd (snd (chunk_loop net gen d t i k reqs acc))
     = snd (snd (chunk_loop net gen d t (i + chunk_size) (k + 1)
         (snd (fetchEmbedding net (slice t i (i + chunk_size)) reqs))
         (acc @ [\<lparr>ident = gen k, docId = d, text = slice t i (i + chunk_size),
                  embedding = fst (fetchEmbedding net (slice t i (i + chunk_size)) reqs)\<rparr>])))"
  by (subst chunk_loop.simps) (simp add: Let_def)

lemma chunk_loop_concat:
  "concat (map chunk.text (snd (snd (chunk_loop net gen d t i k reqs acc))))
   = concat (map chunk.text acc) @ drop i t"
proof (induction net gen d t i k reqs acc rule: chunk_loop.induct)
  case (1 net gen d t i k reqs newChunks)
  show ?case
  proof (cases "i < length t")
    case True
    have "take chunk_size (drop i t) @ drop (i + chunk_size) t = drop i t"
      by (metis add.commute append_take_drop_id drop_drop)
    with True 1 show ?thesis by (simp add: chunk_loop_step slice_def)
  next
    case False
    then show ?thesis by (simp add: chunk_loop_stop)
  qed
qed

lemma chunk_loop_length:
  "length (snd (snd (chunk_loop net gen d t i k reqs acc)))
   = length acc + (length t - i + 499) div 500"
proof (induction net gen d t i k reqs acc rule: chunk_loop.induct)
  case (1 net gen d t i k reqs newChunks)
  show ?case
  proof (cases "i < length t")
    case True
    have "(length t - i + 499) div 500 = Suc ((length t - (i + 500) + 499) div 500)"
      using True ceil_step [of "length t - i"] by simp
    with True 1 show ?thesis by (simp add: chunk_loop_step chunk_size_def)
  next
    case False
    then show ?thesis by (simp add: chunk_loop_stop)
  qed
qed

lemma chunk_loop_full:
  "list_all (\<lambda>c. length (chunk.text c) = 500) acc \<Longrightarrow>
   list_all (\<lambda>c. length (chunk.text c) = 500)
     (butlast (snd (snd (chunk_loop net gen d t i k reqs acc))))"
proof (induction net gen d t i k reqs acc rule: chunk_loop.induct)
  case (1 net gen d t i k reqs newChunks)
  show ?case
  proof (cases "i < length t")
    case False
    then show ?thesis using 1(2) by (auto simp: chunk_loop_stop list_all_iff dest: in_set_butlastD)
  next
    case True
    show ?thesis
    proof (cases "i + chunk_size \<le> length t")
      case True
      with \<open>i < length t\<close> 1 show ?thesis by (simp add: chunk_loop_step slice_def chunk_size_def)
    next
      case False
      with \<open>i < length t\<close> 1(2) show ?thesis by (simp add: chunk_loop_step chunk_loop_stop)
    qed
  qed
qed


lemma upload_file_index:
  "index (fst (upload_file net gen (nm, t, pgs) (st, k, reqs)))
   = index st @ snd (snd (chunk_loop net gen (gen k) t 0 (k + 1) reqs []))"
  by (simp add: upload_file_def Let_def split_beta)

text \<open>
  \<^bold>\<open>C1.\<close> Uploading a file whose extracted text is \<open>t\<close> appends chunks to the index
  (the chunks that were there stay in front). Their number is the ceiling of
  \<open>length t / 500\<close>, every chunk but the last has exactly 500 characters, their
  concatenation in index order is \<open>t\<close>, and the empty text gives no chunk.
\<close>

theorem upload_chunks:
  "let st' = fst (upload_file net gen (nm, t, pgs) (st, k, reqs));
       cs = map chunk.text (drop (length (index st)) (index st'))
   in take (length (index st)) (index st') = index st
    \<and> int (length cs) = \<lceil>real (length t) / 500\<rceil>
    \<and> (\<forall>c \<in> set (butlast cs). length c = 500)
    \<and> concat cs = t
    \<and> (t = [] \<longrightarrow> cs = [])"
proof -
  let ?new = "snd (snd (chunk_loop net gen (gen k) t 0 (k + 1) reqs []))"
  have len: "length ?new = (length t + 499) div 500"
    using chunk_loop_length [of net gen "gen k" t 0 "k + 1" reqs "[]"] by simp
  have full: "list_all (\<lambda>c. length (chunk.text c) = 500) (butlast ?new)"
    by (rule chunk_loop_full) simp
  have cat: "concat (map chunk.text ?new) = t"
    using chunk_loop_concat [of net gen "gen k" t 0 "k + 1" reqs "[]"] by simp
  have "\<forall>c \<in> set (butlast (map chunk.text ?new)). length c = 500"
    using full by (simp add: map_butlast [symmetric] list_all_iff)
  moreover have "t = [] \<longrightarrow> ?new = []"
    using len by auto
  ultimately show ?thesis
    using len cat by (simp add: upload_file_index Let_def ceiling_chunks)
qed

theorem upload_chunks_witness:
  "map chunk.text (index (fst (upload_file ex_net_down ex_uuid (''a.pdf'', [], 0) (ex_empty, 0, [])))) = []
   \<and> (\<exists>a b. map chunk.text (index (fst (upload_file ex_net_down ex_uuid
                 (''b.pdf'', replicate 600 (CHR ''a''), 2) (ex_empty, 0, []))))
              = [a, b] \<and> length a = 500 \<and> length b = 100 \<and> a @ b = replicate 600 (CHR ''a''))"
proof -
  let ?none = "map chunk.text (index (fst (upload_file ex_net_down ex_uuid (''a.pdf'', [], 0) (ex_empty, 0, []))))"
  let ?two = "map chunk.text (index (fst (upload_file ex_net_down ex_uuid
                 (''b.pdf'', replicate 600 (CHR ''a''), 2) (ex_empty, 0, []))))"
  have "?none = []"
    using upload_chunks [of ex_net_down ex_uuid "''a.pdf''" "[]" 0 ex_empty 0 "[]"]
    by (simp add: ex_empty_def Let_def)
  moreover have facts: "int (length ?two) = 2 \<and> (\<forall>c \<in> set (butlast ?two). length c = 500)
      \<and> concat ?two = replicate 600 (CHR ''a'')"
    using upload_chunks [of ex_net_down ex_uuid "''b.pdf''" "replicate 600 (CHR ''a'')" 2 ex_empty 0 "[]"]
    by (simp add: ex_empty_def Let_def)
  then obtain a b where ab: "?two = [a, b]"
    by (auto simp: length_Suc_conv numeral_2_eq_2)
  have "length a = 500" using facts ab by simp
  moreover have "a @ b = replicate 600 (CHR ''a'')" using facts ab by simp
  moreover have "length b = 100"
  proof -
    have "length (a @ b) = 600"
      by (simp only: \<open>a @ b = replicate 600 (CHR ''a'')\<close> length_replicate)
    with \<open>length a = 500\<close> show ?thesis by simp
  qed
  ultimately show ?thesis
    using ab by (intro conjI exI [of _ a] exI [of _ b]) assumption+
qed

subsection \<open>Similarity\<close>

lemma dot_loop_foldl:
  "dot_loop A a b len i s
   = foldl (\<lambda>s i. num_add A s (num_mul A (a ! i) (b ! i))) s [i..<len]"
proof (induction A a b len i s rule: dot_loop.induct)
  case (1 A a b len i s)
  show ?case
  proof (cases "i < len")
    case True
    then have "[i..<len] = i # [i + 1..<len]" by (simp add: upt_conv_Cons)
    with True 1 show ?thesis by (subst dot_loop.simps) simp
  next
    case False
    then show ?thesis by (subst dot_loop.simps) simp
  qed
qed

lemma dot_foldl:
  "dot A a b = foldl (\<lambda>s i. num_add A s (num_mul A (a ! i) (b ! i))) (num_zero A)
                 [0..<min (length a) (length b)]"
  by (simp add: dot_def dot_loop_foldl)

lemma dot_commute:
  assumes "\<forall>x y. num_mul A x y = num_mul A y x"
  shows "dot A a b = dot A b a"
proof -
  have "(\<lambda>s i. num_add A s (num_mul A (a ! i) (b ! i)))
      = (\<lambda>s i. num_add A s (num_mul A (b ! i) (a ! i)))"
    using assms by simp
  then show ?thesis by (simp add: dot_foldl min.commute)
qed

lemma dot_pair:
  "dot A [a1, a2] [b1, b2]
   = num_add A (num_add A (num_zero A) (num_mul A a1 b1)) (num_mul A a2 b2)"
  by (simp add: dot_foldl upt_conv_Cons)

lemma sum_squares_Nil: "sum_squares A [] = num_zero A"
  by (simp add: sum_squares_def)

lemma sum_squares_snoc:
  "sum_squares A (v @ [x]) = num_add A (sum_squares A v) (num_mul A x x)"
  by (simp add: sum_squares_def)

lemma cosineSim_value:
  "cosineSim A a b =
     (if num_truthy A (sum_squares A a) \<and> num_truthy A (sum_squares A b)
      then num_div A (dot A a b) (num_sqrt A (num_mul A (sum_squares A a) (sum_squares A b)))
      else num_zero A)"
  by (simp add: cosineSim_def Let_def)

lemma cosineSim_falsy:
  "\<not> num_truthy A (sum_squares A a) \<or> \<not> num_truthy A (sum_squares A b)
   \<Longrightarrow> cosineSim A a b = num_zero A"
  by (auto simp: cosineSim_value)

lemma score_with_score: "score (with_score ch s) = s"
  by (simp add: with_score_def)

lemma truncate_with_score: "chunk.truncate (with_score ch s) = ch"
  by (simp add: with_score_def chunk.truncate_def)

lemma scoreChunks_aligned: "map chunk.truncate (scoreChunks A q question idx) = idx"
  by (simp add: scoreChunks_def Let_def truncate_with_score comp_def)

lemma length_scoreChunks: "length (scoreChunks A q question idx) = length idx"
  by (simp add: scoreChunks_def Let_def)

lemma scoreChunks_vector:
  "scoreChunks A (Val q) question idx
   = map (\<lambda>ch. with_score ch (cosineSim A q (or_empty (embedding ch)))) idx"
  by (simp add: scoreChunks_def)

lemma scoreChunks_absent_embedding:
  assumes "\<not> num_truthy A (num_zero A)"
    and "i < length idx" and "\<not> truthy_array (embedding (idx ! i))"
  shows "score (scoreChunks A (Val q) question idx ! i) = num_zero A"
proof -
  have "or_empty (embedding (idx ! i)) = []"
    using assms(3) by (cases "embedding (idx ! i)") simp_all
  moreover have "cosineSim A q [] = num_zero A"
    using assms(1) cosineSim_falsy [of A q "[]"] by (simp add: sum_squares_Nil)
  ultimately show ?thesis
    using assms(2) by (simp add: scoreChunks_vector score_with_score)
qed

lemma js_real_zero_falsy: "\<not> num_truthy js_real (num_zero js_real)"
  by (simp add: js_real_def)

lemma js_exact_zero_falsy: "\<not> num_truthy js_exact (num_zero js_exact)"
  by (simp add: js_exact_def)

lemma sqrt_625: "sqrt 625 = 25"
  by (rule real_sqrt_unique) simp_all

text \<open>The scores of the ask on doubles: the second one overflows to NaN.\<close>

lemma max_double_bounds: "2 ^ 1000 \<le> max_double" "max_double < 2 ^ 1100" "0 \<le> max_double"
  by (simp_all add: max_double_def)

lemma overflow_small: "- max_double \<le> r \<Longrightarrow> r \<le> max_double \<Longrightarrow> overflow r = Finite r"
  by (simp add: overflow_def)

lemma overflow_big: "max_double < r \<Longrightarrow> overflow r = PosInf"
  by (simp add: overflow_def)

lemma sqrt_2_1000: "sqrt (2 ^ 1000) = 2 ^ 500"
  by (rule real_sqrt_unique) simp_all

lemma score_across:
  "cosineSim js_exact [Finite two_500, Finite 0] [Finite 0, Finite 1] = Finite 0"
  by (simp add: cosineSim_value dot_pair sum_squares_def js_exact_def overflow_def max_double_def
      sqrt_2_1000 two_500_def)

lemma score_huge:
  "cosineSim js_exact [Finite two_500, Finite 0] [Finite two_600, Finite 0] = NaN"
  by (simp add: cosineSim_value dot_pair sum_squares_def js_exact_def overflow_def max_double_def
      two_500_def two_600_def)

lemma score_along:
  "cosineSim js_exact [Finite two_500, Finite 0] [Finite 1, Finite 0] = Finite 1"
  by (simp add: cosineSim_value dot_pair sum_squares_def js_exact_def overflow_def max_double_def
      sqrt_2_1000 two_500_def)

text \<open>
  \<^bold>\<open>C10.\<close> In every arithmetic whose multiplication is commutative (that of IEEE-754
  doubles is, and so is that of the reals), \<^verbatim>\<open>cosineSim(a, b)\<close> and \<^verbatim>\<open>cosineSim(b, a)\<close>
  are the same value, for vectors of any two lengths.
\<close>

theorem cosineSim_symmetric:
  assumes "\<forall>x y. num_mul A x y = num_mul A y x"
  shows "cosineSim A a b = cosineSim A b a"
proof -
  have "num_mul A (sum_squares A a) (sum_squares A b) = num_mul A (sum_squares A b) (sum_squares A a)"
    using assms by simp
  then show ?thesis
    using dot_commute [OF assms, of a b] by (auto simp: cosineSim_def Let_def)
qed

theorem cosineSim_symmetric_witness:
  "cosineSim js_real [1, 2, 3] [4, 5] = cosineSim js_real [4, 5] [1, 2, 3]"
proof -
  have "\<forall>x y. num_mul js_real x y = num_mul js_real y x"
    by (simp add: js_real_def)
  then show ?thesis by (rule cosineSim_symmetric)
qed

text \<open>
  \<^bold>\<open>C4.\<close> In every arithmetic in which the literal \<^verbatim>\<open>0\<close> is falsy: \<^verbatim>\<open>dot\<close> adds the
  products at the indices below the shorter of the two lengths and nothing else; the
  magnitude that \<^verbatim>\<open>cosineSim\<close> tests is the sum of the squares of all entries of a
  vector; \<^verbatim>\<open>cosineSim(a, b)\<close> is that dot product divided by the square root of the
  product of the two sums when both sums are truthy, and the literal \<^verbatim>\<open>0\<close> otherwise,
  in particular when one of the sums is \<^verbatim>\<open>0\<close> and against the empty vector that
  stands for an embedding that is \<^verbatim>\<open>null\<close> or \<^verbatim>\<open>undefined\<close>. In the vector path of
  \<^verbatim>\<open>handleAsk\<close> the score of a chunk is \<^verbatim>\<open>cosineSim\<close> of the query embedding and the
  chunk's embedding or the empty vector, so a chunk without embedding gets the score
  \<^verbatim>\<open>0\<close>.
\<close>

theorem cosineSim_zero_guard:
  assumes "\<not> num_truthy A (num_zero A)"
  shows "dot A a b = foldl (\<lambda>s i. num_add A s (num_mul A (a ! i) (b ! i))) (num_zero A)
                       [0..<min (length a) (length b)]
     \<and> sum_squares A [] = num_zero A
     \<and> sum_squares A (v @ [x]) = num_add A (sum_squares A v) (num_mul A x x)
     \<and> cosineSim A a b =
         (if num_truthy A (sum_squares A a) \<and> num_truthy A (sum_squares A b)
          then num_div A (dot A a b) (num_sqrt A (num_mul A (sum_squares A a) (sum_squares A b)))
          else num_zero A)
     \<and> (sum_squares A a = num_zero A \<or> sum_squares A b = num_zero A
          \<longrightarrow> cosineSim A a b = num_zero A)
     \<and> cosineSim A a (or_empty Null) = num_zero A
     \<and> cosineSim A a (or_empty Undefined) = num_zero A
     \<and> (\<forall>i < length idx.
           score (scoreChunks A (Val q) question idx ! i)
           = cosineSim A q (or_empty (embedding (idx ! i))))
     \<and> (\<forall>i < length idx. \<not> truthy_array (embedding (idx ! i)) \<longrightarrow>
           score (scoreChunks A (Val q) question idx ! i) = num_zero A)"
proof -
  have "sum_squares A a = num_zero A \<or> sum_squares A b = num_zero A
          \<longrightarrow> cosineSim A a b = num_zero A"
    using assms cosineSim_falsy [of A a b] by auto
  moreover have "cosineSim A a [] = num_zero A"
    using assms cosineSim_falsy [of A a "[]"] by (simp add: sum_squares_Nil)
  moreover have "\<forall>i < length idx. \<not> truthy_array (embedding (idx ! i)) \<longrightarrow>
           score (scoreChunks A (Val q) question idx ! i) = num_zero A"
    using assms by (simp add: scoreChunks_absent_embedding)
  moreover have "\<forall>i < length idx.
           score (scoreChunks A (Val q) question idx ! i)
           = cosineSim A q (or_empty (embedding (idx ! i)))"
    by (simp add: scoreChunks_vector score_with_score)
  ultimately show ?thesis
    using cosineSim_value [of A a b] dot_foldl [of A a b]
    by (simp add: sum_squares_Nil sum_squares_snoc)
qed

theorem cosineSim_zero_guard_witness:
  "dot js_real [1, 2, 3] [4, 5] = 14
   \<and> sum_squares js_real [3, 4] = 25
   \<and> cosineSim js_real [3, 4] [4, 3] = 24 / 25
   \<and> cosineSim js_real [3, 4] [0, 0] = 0
   \<and> cosineSim js_real [3, 4] [] = 0
   \<and> score (scoreChunks js_real (Val [0, 2]) ''store'' [ex_bread, ex_store] ! 0) = 1
   \<and> score (scoreChunks js_real (Val [0, 2]) ''store'' [ex_bread, ex_store] ! 1) = 0
   \<and> cosineSim js_exact [Finite two_500, Finite 0] (or_empty Null) = Finite 0"
proof -
  note inst = cosineSim_zero_guard [OF js_real_zero_falsy]
  have dot14: "dot js_real [1, 2, 3] [4, 5] = 14"
    using inst [of "[1, 2, 3]" "[4, 5]"] by (simp add: js_real_def upt_conv_Cons)
  have sq: "sum_squares js_real [3, 4] = 25" "sum_squares js_real [4, 3] = 25"
    using inst [of _ _ "[3]" 4] inst [of _ _ "[]" 3] inst [of _ _ "[4]" 3] inst [of _ _ "[]" 4]
    by (simp_all add: js_real_def)
  have dot24: "dot js_real [3, 4] [4, 3] = 24"
    using inst [of "[3, 4]" "[4, 3]"] by (simp add: js_real_def upt_conv_Cons)
  have cos: "cosineSim js_real [3, 4] [4, 3] = 24 / 25"
    using inst [of "[3, 4]" "[4, 3]"] sq dot24 by (simp add: js_real_def sqrt_625)
  have "sum_squares js_real [0, 0] = num_zero js_real"
    using inst [of _ _ "[0]" 0] inst [of _ _ "[]" 0] by (simp add: js_real_def)
  with inst [of "[3, 4]" "[0, 0]"] have zero: "cosineSim js_real [3, 4] [0, 0] = num_zero js_real"
    by blast
  from inst [of "[3, 4]"] have empty: "cosineSim js_real [3, 4] (or_empty Null) = num_zero js_real"
    by blast
  have idx: "0 < length [ex_bread, ex_store]" "1 < length [ex_bread, ex_store]"
    "\<not> truthy_array (embedding ([ex_bread, ex_store] ! 1))"
    by (simp_all add: ex_store_def)
  from inst [of _ _ _ _ "[ex_bread, ex_store]" "[0, 2]" "''store''"] idx
  have s1: "score (scoreChunks js_real (Val [0, 2]) ''store'' [ex_bread, ex_store] ! 1)
            = num_zero js_real"
    by blast
  from inst [of _ _ _ _ "[ex_bread, ex_store]" "[0, 2]" "''store''"] idx
  have "score (scoreChunks js_real (Val [0, 2]) ''store'' [ex_bread, ex_store] ! 0)
        = cosineSim js_real [0, 2] (or_empty (embedding ([ex_bread, ex_store] ! 0)))"
    by blast
  moreover have "cosineSim js_real [0, 2] [0, 1] = 1"
    using inst [of "[0, 2]" "[0, 1]"] inst [of _ _ "[0]" 2] inst [of _ _ "[]" 0]
      inst [of _ _ "[0]" 1]
    by (simp add: js_real_def upt_conv_Cons)
  ultimately have s0: "score (scoreChunks js_real (Val [0, 2]) ''store'' [ex_bread, ex_store] ! 0) = 1"
    by (simp add: ex_bread_def)
  have big: "cosineSim js_exact [Finite two_500, Finite 0] (or_empty Null) = Finite 0"
    using cosineSim_zero_guard [OF js_exact_zero_falsy, of "[Finite two_500, Finite 0]"]
    by (simp add: js_exact_def)
  show ?thesis
    using dot14 sq cos zero empty s0 s1 big by (simp add: js_real_def)
qed

subsection \<open>The network\<close>

lemma fetchEmbedding_sent: "snd (fetchEmbedding net input reqs) = reqs @ [EmbedRequest input]"
  by (simp add: fetchEmbedding_def Let_def split: sum.split)

lemma callAnswerAPI_sent:
  "snd (callAnswerAPI net context question reqs) = reqs @ [AnswerRequest context question]"
  by (simp add: callAnswerAPI_def Let_def split: sum.split)

lemma try_read_caught: "caught_failure resp \<Longrightarrow> \<exists>err. try_read msg resp = Inl err"
  by (cases resp) (auto simp: try_read_def)

lemma try_read_throws_iff: "(\<exists>err. try_read msg resp = Inl err) \<longleftrightarrow> caught_failure resp"
proof (cases resp)
  case NetworkError
  then show ?thesis by (simp add: try_read_def)
next
  case (Http status body)
  then show ?thesis by (cases body) (auto simp: try_read_def)
qed

lemma fetchEmbedding_caught:
  "caught_failure (embed_api net input) \<Longrightarrow>
   fetchEmbedding net input reqs = (Null, reqs @ [EmbedRequest input])"
  using try_read_caught [of "embed_api net input" "''embed failed''"]
  by (auto simp: fetchEmbedding_def Let_def)

lemma callAnswerAPI_caught:
  "caught_failure (answer_api net context question) \<Longrightarrow>
   callAnswerAPI net context question reqs
   = (Val fallback_answer, reqs @ [AnswerRequest context question])"
  using try_read_caught [of "answer_api net context question" "''answer failed''"]
  by (auto simp: callAnswerAPI_def Let_def)

lemma fetchEmbedding_parsed:
  "embed_api net input = Http status (JsonData v) \<Longrightarrow> ok status \<Longrightarrow>
   fetchEmbedding net input reqs = (v, reqs @ [EmbedRequest input])"
  by (simp add: fetchEmbedding_def try_read_def)

lemma callAnswerAPI_parsed:
  "answer_api net context question = Http status (JsonData v) \<Longrightarrow> ok status \<Longrightarrow>
   callAnswerAPI net context question reqs = (v, reqs @ [AnswerRequest context question])"
  by (simp add: callAnswerAPI_def try_read_def)

lemma caught_is_failure: "caught_failure resp \<Longrightarrow> provider_failure resp"
  by (cases resp) auto

subsection \<open>Ranking\<close>

text \<open>Where the comparison \<^verbatim>\<open>b.score - a.score\<close> orders the elements as a key does, the
  sort is the library's stable insertion sort on the negated key.\<close>

lemma length_insert_by: "length (insert_by after x ys) = Suc (length ys)"
  by (induction ys) auto

lemma length_sort_by: "length (sort_by after xs) = length xs"
  by (induction xs) (auto simp: sort_by_def length_insert_by)

lemma insert_by_insort_key:
  "\<forall>y \<in> set ys. after x y \<longleftrightarrow> k x < k y \<Longrightarrow>
   insert_by after x ys = insort_key (\<lambda>c. - k c) x ys" for k :: "'a \<Rightarrow> real"
  by (induction ys) auto

lemma sort_by_sort_key:
  "\<forall>x \<in> set xs. \<forall>y \<in> set xs. after x y \<longleftrightarrow> k x < k y \<Longrightarrow>
   sort_by after xs = sort_key (\<lambda>c. - k c) xs" for k :: "'a \<Rightarrow> real"
proof (induction xs)
  case Nil
  then show ?case by (simp add: sort_by_def)
next
  case (Cons x xs)
  then have "sort_by after xs = sort_key (\<lambda>c. - k c) xs"
    by simp
  moreover have "\<forall>y \<in> set (sort_key (\<lambda>c. - k c) xs). after x y \<longleftrightarrow> k x < k y"
    using Cons.prems by simp
  ultimately show ?case
    using insert_by_insort_key [of "sort_key (\<lambda>c. - k c) xs" after x k]
    by (simp add: sort_by_def)
qed

lemma prefix_filter_take: "prefix (filter P (take n xs)) (filter P xs)"
proof -
  have "filter P xs = filter P (take n xs) @ filter P (drop n xs)"
    by (metis append_take_drop_id filter_append)
  then show ?thesis by (simp add: prefix_def)
qed

lemma length_top_chunks: "length (top_chunks A scored) = min (length scored) 5"
  by (simp add: top_chunks_def length_sort_by min.commute)

lemma top_chunks_sort_key:
  assumes "ordered_by A key (map score scored)"
  shows "top_chunks A scored = take 5 (sort_key (\<lambda>c. - key (score c)) scored)"
proof -
  have "\<forall>x \<in> set scored. \<forall>y \<in> set scored.
          num_positive A (num_sub A (score y) (score x)) \<longleftrightarrow> key (score x) < key (score y)"
    using assms by (simp add: ordered_by_def)
  then show ?thesis
    unfolding top_chunks_def
    using sort_by_sort_key [of scored "\<lambda>a b. num_positive A (num_sub A (score b) (score a))"
        "\<lambda>c. key (score c)"]
    by simp
qed

lemma top_chunks_ranked:
  assumes "ordered_by A key (map score scored)"
  shows "sorted_wrt (\<lambda>x y. key (score x) \<ge> key (score y)) (top_chunks A scored)
   \<and> (\<forall>v. prefix (filter (\<lambda>c. key (score c) = v) (top_chunks A scored))
                   (filter (\<lambda>c. key (score c) = v) scored))
   \<and> (\<exists>rest. mset (top_chunks A scored @ rest) = mset scored
             \<and> sorted_wrt (\<lambda>x y. key (score x) \<ge> key (score y)) (top_chunks A scored @ rest))"
proof -
  let ?k = "\<lambda>c. key (score c)"
  let ?s = "sort_key (\<lambda>c. - ?k c) scored"
  have "sorted (map (\<lambda>c. - ?k c) ?s)"
    by (rule sorted_sort_key)
  then have sorted: "sorted_wrt (\<lambda>x y. ?k x \<ge> ?k y) ?s"
    by (simp add: sorted_wrt_map sorted_wrt_iff_nth_less)
  have "sorted_wrt (\<lambda>x y. ?k x \<ge> ?k y) (take 5 ?s)"
    using sorted by (rule sorted_wrt_take)
  moreover have "\<forall>v. prefix (filter (\<lambda>c. ?k c = v) (take 5 ?s)) (filter (\<lambda>c. ?k c = v) scored)"
  proof
    fix v
    show "prefix (filter (\<lambda>c. ?k c = v) (take 5 ?s)) (filter (\<lambda>c. ?k c = v) scored)"
      using prefix_filter_take [of "\<lambda>c. ?k c = v" 5 ?s]
        sort_key_stable [of "\<lambda>c. - ?k c" "- v" scored]
      by simp
  qed
  moreover have "\<exists>rest. mset (take 5 ?s @ rest) = mset scored
      \<and> sorted_wrt (\<lambda>x y. ?k x \<ge> ?k y) (take 5 ?s @ rest)"
    using sorted by (intro exI [of _ "drop 5 ?s"]) simp
  ultimately show ?thesis
    unfolding top_chunks_sort_key [OF assms] by blast
qed

subsection \<open>Asking\<close>

lemma handleAsk_asked:
  assumes "trim (query st) \<noteq> []"
  shows "handleAsk A net st reqs =
    (let question = trim (query st);
         tops = top_chunks A (scoreChunks A (fst (fetchEmbedding net question reqs)) question (index st));
         context = context_of tops
     in (st\<lparr>answer := Some \<lparr>answer_text =
              fst (callAnswerAPI net context question (reqs @ [EmbedRequest question])),
            sources = tops\<rparr>\<rparr>,
         reqs @ [EmbedRequest question, AnswerRequest context question]))"
  using assms
    fetchEmbedding_sent [of net "trim (query st)" reqs]
  by (simp add: handleAsk_def Let_def split_beta callAnswerAPI_sent)

lemma matches_occurrences:
  "matches qTokens chunkText = occurrences_present qTokens (tokenize (Some chunkText))"
  by (simp add: matches_def occurrences_present_def Let_def length_filter_conv_card)

lemma scoreChunks_fallback:
  "\<not> truthy_array qEmbedding \<Longrightarrow>
   scoreChunks A qEmbedding question idx
   = map (\<lambda>ch. with_score ch (num_of_nat A (matches (tokenize (Some question)) (chunk.text ch)))) idx"
  by (simp add: scoreChunks_def Let_def)

lemma length_join:
  "length (join sep xs) = sum_list (map length xs) + length sep * (length xs - 1)"
  by (induction sep xs rule: join.induct) simp_all

lemma length_context_of:
  "length (context_of tops)
   = sum_list (map (\<lambda>c. length (chunk.text c)) tops) + 5 * (length tops - 1)"
  by (simp add: context_of_def length_join separator_def comp_def)

lemma sum_list_bounded:
  "(\<forall>x \<in> set xs. f x \<le> (n::nat)) \<Longrightarrow> sum_list (map f xs) \<le> length xs * n"
  by (induction xs) auto

text \<open>The examples evaluated.\<close>

lemma trim_blank: "trim [CHR '' '', CHR 0x09, CHR 0x0A, CHR '' ''] = []"
  by code_simp

lemma trim_ex: "trim (query ex_state) = ''How do I close the store?''"
  by code_simp

lemma trim_big: "trim (query ex_state_big) = ''closing''"
  by code_simp

lemma scen_c1: "matches (tokenize (Some ''How do I close the store?'')) (chunk.text ex_store) = 2"
  by code_simp

lemma scen_c2: "matches (tokenize (Some ''How do I close the store?'')) (chunk.text ex_bread) = 0"
  by code_simp

lemma ex_scored:
  "scoreChunks js_real Null ''How do I close the store?'' (index ex_state)
   = [with_score ex_bread 0, with_score ex_store 2]"
  by (simp add: scoreChunks_def ex_state_def scen_c1 scen_c2 js_real_def)

lemma ex_top:
  "top_chunks js_real [with_score ex_bread 0, with_score ex_store 2]
   = [with_score ex_store 2, with_score ex_bread 0]"
  by (simp add: top_chunks_def sort_by_def score_with_score js_real_def)

lemma ex_down_embedding:
  "fetchEmbedding ex_net_down ''How do I close the store?'' []
   = (Null, [EmbedRequest ''How do I close the store?''])"
  by (rule fetchEmbedding_caught [of ex_net_down _ "[]", simplified])
     (simp add: ex_net_down_def ok_def)

lemma ex_shape_embedding:
  "fetchEmbedding ex_net_shape inp [] = (Undefined, [EmbedRequest inp])"
  by (rule fetchEmbedding_parsed [of ex_net_shape _ 200 _ "[]", simplified])
     (simp_all add: ex_net_shape_def ok_def)

lemma ex_big_scored:
  "scoreChunks js_exact (Val [Finite two_500, Finite 0]) ''closing'' (index ex_state_big)
   = [with_score ex_across (Finite 0), with_score ex_huge NaN, with_score ex_along (Finite 1)]"
  by (simp add: scoreChunks_vector ex_state_big_def ex_across_def ex_huge_def ex_along_def
      score_across score_huge score_along)

lemma ex_big_top:
  "top_chunks js_exact
     [with_score ex_across (Finite 0), with_score ex_huge NaN, with_score ex_along (Finite 1)]
   = [with_score ex_across (Finite 0), with_score ex_huge NaN, with_score ex_along (Finite 1)]"
  by (simp add: top_chunks_def sort_by_def score_with_score js_exact_def)

text \<open>
  \<^bold>\<open>C8.\<close> When the query is empty after trimming, \<^verbatim>\<open>handleAsk\<close> returns the state as it
  was (the answer included) and sends no request.
\<close>

theorem empty_question_noop:
  "trim (query st) = [] \<Longrightarrow> handleAsk A net st reqs = (st, reqs)"
  by (simp add: handleAsk_def)

theorem empty_question_noop_witness:
  "handleAsk js_real ex_net_down (ex_state\<lparr>query := [CHR '' '', CHR 0x09, CHR 0x0A, CHR '' '']\<rparr>) []
   = (ex_state\<lparr>query := [CHR '' '', CHR 0x09, CHR 0x0A, CHR '' '']\<rparr>, [])"
  using trim_blank by (intro empty_question_noop) simp

text \<open>
  \<^bold>\<open>C2\<close> as stated fails on doubles. The question gets the embedding \<open>[2\<^sup>5\<^sup>0\<^sup>0, 0]\<close>;
  the chunks have the embeddings \<open>[0, 1]\<close>, \<open>[2\<^sup>6\<^sup>0\<^sup>0, 0]\<close> and \<open>[1, 0]\<close>. Their scores
  are 0, NaN (the dot product and the second sum of squares overflow, and infinity
  divided by infinity is NaN) and 1. Every comparison with the NaN score is NaN, so no
  chunk moves, and the sources keep the index order: the chunk with score 0 stands
  before the chunk with score 1, although the comparison of these two is positive.
\<close>

theorem ranking_counterexample:
  "trim (query ex_state_big) \<noteq> []
   \<and> fst (handleAsk js_exact ex_net_big ex_state_big [])
      = ex_state_big\<lparr>answer := Some \<lparr>answer_text = Val ''Ask the manager.'',
          sources = [with_score ex_across (Finite 0), with_score ex_huge NaN,
                     with_score ex_along (Finite 1)]\<rparr>\<rparr>
   \<and> num_positive js_exact
        (num_sub js_exact (score (with_score ex_along (Finite 1)))
                          (score (with_score ex_across (Finite 0))))"
proof -
  have emb: "fetchEmbedding ex_net_big ''closing'' []
             = (Val [Finite two_500, Finite 0], [EmbedRequest ''closing''])"
    by (rule fetchEmbedding_parsed [of ex_net_big _ 200 _ "[]", simplified])
       (simp_all add: ex_net_big_def ok_def)
  have ans: "fst (callAnswerAPI ex_net_big ctx ''closing'' rs) = Val ''Ask the manager.''" for ctx rs
    using callAnswerAPI_parsed [of ex_net_big ctx "''closing''" 200 "Val ''Ask the manager.''" rs]
    by (simp add: ex_net_big_def ok_def)
  have "fst (handleAsk js_exact ex_net_big ex_state_big [])
      = ex_state_big\<lparr>answer := Some \<lparr>answer_text = Val ''Ask the manager.'',
          sources = [with_score ex_across (Finite 0), with_score ex_huge NaN,
                     with_score ex_along (Finite 1)]\<rparr>\<rparr>"
    by (simp add: handleAsk_asked trim_big Let_def emb ans ex_big_scored ex_big_top)
  moreover have "num_positive js_exact
        (num_sub js_exact (score (with_score ex_along (Finite 1)))
                          (score (with_score ex_across (Finite 0))))"
    by (simp add: score_with_score js_exact_def overflow_def max_double_def)
  ultimately show ?thesis
    by (simp add: trim_big)
qed

text \<open>
  \<^bold>\<open>C2, amended.\<close> When the question is not empty, the sources of the answer that an
  ask produces are \<open>min N 5\<close> of the \<open>N\<close> scored chunks, which are the chunks of the
  index, in index order, each with its score. If the comparison \<^verbatim>\<open>b.score - a.score\<close>
  orders the scores of the ask as a key does (on doubles: if none of them is NaN), the
  sources are in descending order of score; the chunks of one score among them are a
  prefix of the chunks of that score in index order; and they are the first five of a
  descending arrangement of all scored chunks.
\<close>

theorem ask_ranking:
  assumes "trim (query st) \<noteq> []"
  shows "\<exists>a scored.
      answer (fst (handleAsk A net st reqs)) = Some a
    \<and> scored = scoreChunks A (fst (fetchEmbedding net (trim (query st)) reqs)) (trim (query st)) (index st)
    \<and> map chunk.truncate scored = index st
    \<and> length (sources a) = min (length (index st)) 5
    \<and> (ordered_by A key (map score scored) \<longrightarrow>
         sorted_wrt (\<lambda>x y. key (score x) \<ge> key (score y)) (sources a)
       \<and> (\<forall>v. prefix (filter (\<lambda>c. key (score c) = v) (sources a))
                       (filter (\<lambda>c. key (score c) = v) scored))
       \<and> (\<exists>rest. mset (sources a @ rest) = mset scored
              \<and> sorted_wrt (\<lambda>x y. key (score x) \<ge> key (score y)) (sources a @ rest)))"
proof -
  let ?q = "trim (query st)"
  let ?scored = "scoreChunks A (fst (fetchEmbedding net ?q reqs)) ?q (index st)"
  let ?a = "\<lparr>answer_text = fst (callAnswerAPI net (context_of (top_chunks A ?scored)) ?q
                (reqs @ [EmbedRequest ?q])), sources = top_chunks A ?scored\<rparr>"
  have "answer (fst (handleAsk A net st reqs)) = Some ?a"
    using assms by (simp add: handleAsk_asked Let_def)
  moreover have "map chunk.truncate ?scored = index st"
    by (rule scoreChunks_aligned)
  moreover have "length (sources ?a) = min (length (index st)) 5"
    by (simp add: length_top_chunks length_scoreChunks)
  moreover have "ordered_by A key (map score ?scored) \<longrightarrow>
         sorted_wrt (\<lambda>x y. key (score x) \<ge> key (score y)) (sources ?a)
       \<and> (\<forall>v. prefix (filter (\<lambda>c. key (score c) = v) (sources ?a))
                       (filter (\<lambda>c. key (score c) = v) ?scored))
       \<and> (\<exists>rest. mset (sources ?a @ rest) = mset ?scored
              \<and> sorted_wrt (\<lambda>x y. key (score x) \<ge> key (score y)) (sources ?a @ rest))"
    using top_chunks_ranked [of A key ?scored] by simp
  ultimately show ?thesis
    by (intro exI [of _ ?a] exI [of _ ?scored]) blast
qed

theorem ask_ranking_witness:
  "\<exists>a. answer (fst (handleAsk js_real ex_net_down ex_state [])) = Some a
     \<and> length (sources a) = 2
     \<and> sorted_wrt (\<lambda>x y. score x \<ge> score y) (sources a)
     \<and> prefix (filter (\<lambda>c. score c = 2) (sources a)) [with_score ex_store 2]"
proof -
  have asked: "trim (query ex_state) \<noteq> []"
    by (simp add: trim_ex)
  have ordered: "ordered_by js_real (\<lambda>x. x) (map score
      (scoreChunks js_real (fst (fetchEmbedding ex_net_down (trim (query ex_state)) []))
         (trim (query ex_state)) (index ex_state)))"
    by (auto simp: ordered_by_def js_real_def)
  from ask_ranking [OF asked, of js_real ex_net_down "[]" "\<lambda>x. x"] ordered
  obtain a where a: "answer (fst (handleAsk js_real ex_net_down ex_state [])) = Some a"
    "length (sources a) = min (length (index ex_state)) 5"
    "sorted_wrt (\<lambda>x y. score x \<ge> score y) (sources a)"
    "\<forall>v. prefix (filter (\<lambda>c. score c = v) (sources a))
       (filter (\<lambda>c. score c = v)
         (scoreChunks js_real (fst (fetchEmbedding ex_net_down (trim (query ex_state)) []))
            (trim (query ex_state)) (index ex_state)))"
    by blast
  from a(4) [rule_format, of 2]
  have "prefix (filter (\<lambda>c. score c = 2) (sources a)) [with_score ex_store 2]"
    by (simp add: trim_ex ex_down_embedding ex_scored score_with_score)
  with a(1-3) show ?thesis
    by (intro exI [of _ a]) (simp add: ex_state_def)
qed

text \<open>
  \<^bold>\<open>C3.\<close> Without a query embedding the score of a chunk is the number of query token
  occurrences that occur among the chunk's tokens; a chunk with more such occurrences
  than another has the strictly higher score. In any arithmetic the score is the number
  that this count is.
\<close>

theorem fallback_scores:
  assumes "\<not> truthy_array qEmbedding"
  shows "scoreChunks js_real qEmbedding question idx
         = map (\<lambda>ch. with_score ch (real (occurrences_present (tokenize (Some question))
                                             (tokenize (Some (chunk.text ch)))))) idx
     \<and> (\<forall>i < length idx. \<forall>j < length idx.
           occurrences_present (tokenize (Some question)) (tokenize (Some (chunk.text (idx ! j))))
           < occurrences_present (tokenize (Some question)) (tokenize (Some (chunk.text (idx ! i))))
           \<longrightarrow> score (scoreChunks js_real qEmbedding question idx ! j)
               < score (scoreChunks js_real qEmbedding question idx ! i))
     \<and> (\<forall>A q' idx'. \<not> truthy_array q' \<longrightarrow>
           scoreChunks A q' question idx'
           = map (\<lambda>ch. with_score ch (num_of_nat A (occurrences_present (tokenize (Some question))
                                                    (tokenize (Some (chunk.text ch)))))) idx')"
proof -
  have "scoreChunks js_real qEmbedding question idx
         = map (\<lambda>ch. with_score ch (real (occurrences_present (tokenize (Some question))
                                             (tokenize (Some (chunk.text ch)))))) idx"
    using assms by (simp add: scoreChunks_fallback matches_occurrences js_real_def)
  then show ?thesis
    by (simp add: scoreChunks_fallback matches_occurrences score_with_score)
qed

theorem fallback_scores_witness:
  "scoreChunks js_real Null ''How do I close the store?'' [ex_bread, ex_store]
   = [with_score ex_bread 0, with_score ex_store 2]
   \<and> score (scoreChunks js_real Null ''How do I close the store?'' [ex_bread, ex_store] ! 0)
     < score (scoreChunks js_real Null ''How do I close the store?'' [ex_bread, ex_store] ! 1)"
proof -
  have "\<not> truthy_array (Null :: real list jsval)"
    by simp
  from fallback_scores [OF this, of "''How do I close the store?''" "[ex_bread, ex_store]"]
  have "scoreChunks js_real Null ''How do I close the store?'' [ex_bread, ex_store]
         = map (\<lambda>ch. with_score ch (real (occurrences_present
                  (tokenize (Some ''How do I close the store?'')) (tokenize (Some (chunk.text ch))))))
             [ex_bread, ex_store]"
    by blast
  then show ?thesis
    using scen_c1 scen_c2 by (simp add: matches_occurrences score_with_score)
qed

text \<open>
  \<^bold>\<open>C5\<close> as stated fails: two chunks of 500 characters are a ranked sequence of
  \<open>k = 2\<close> chunks, and their context has 1005 characters, more than \<open>2 \<times> 500\<close>.
\<close>

theorem context_bound_counterexample:
  "length [ex_full, ex_full] \<le> 5
   \<and> length (chunk.text ex_full) = chunk_size
   \<and> top_chunks js_real [ex_full, ex_full] = [ex_full, ex_full]
   \<and> length (context_of [ex_full, ex_full]) = 1005
   \<and> \<not> length (context_of [ex_full, ex_full]) \<le> length [ex_full, ex_full] * chunk_size"
  by (simp add: length_context_of ex_full_def chunk_size_def top_chunks_def sort_by_def js_real_def)

text \<open>
  \<^bold>\<open>C5, amended.\<close> The context is the texts of the top chunks in rank order with the
  separator \<^verbatim>\<open>"\n---\n"\<close> between consecutive ones; its length is the sum of the lengths
  of the texts plus 5 for each of the \<open>k - 1\<close> separators, hence at most
  \<open>k \<times> 500 + 5 \<times> (k - 1)\<close> when no text is longer than 500; and it is the context that
  an ask sends to the generation provider.
\<close>

theorem context_assembly:
  "context_of [] = []
   \<and> context_of [c] = chunk.text c
   \<and> context_of (c # c' # cs) = chunk.text c @ separator @ context_of (c' # cs)
   \<and> length (context_of tops)
       = sum_list (map (\<lambda>c. length (chunk.text c)) tops) + 5 * (length tops - 1)
   \<and> ((\<forall>c \<in> set tops. length (chunk.text c) \<le> chunk_size) \<longrightarrow>
         length (context_of tops) \<le> length tops * chunk_size + 5 * (length tops - 1))
   \<and> (trim (query st) \<noteq> [] \<longrightarrow>
         (\<exists>a. answer (fst (handleAsk A net st reqs)) = Some a
            \<and> snd (handleAsk A net st reqs)
                = reqs @ [EmbedRequest (trim (query st)),
                          AnswerRequest (context_of (sources a)) (trim (query st))]))"
proof -
  have "(\<forall>c \<in> set tops. length (chunk.text c) \<le> chunk_size) \<longrightarrow>
         length (context_of tops) \<le> length tops * chunk_size + 5 * (length tops - 1)"
    using sum_list_bounded [of tops "\<lambda>c. length (chunk.text c)" chunk_size]
    by (simp add: length_context_of)
  moreover have "trim (query st) \<noteq> [] \<longrightarrow>
         (\<exists>a. answer (fst (handleAsk A net st reqs)) = Some a
            \<and> snd (handleAsk A net st reqs)
                = reqs @ [EmbedRequest (trim (query st)),
                          AnswerRequest (context_of (sources a)) (trim (query st))])"
    by (simp add: handleAsk_asked Let_def)
  ultimately show ?thesis
    by (simp add: length_context_of) (simp add: context_of_def)
qed

theorem context_assembly_witness:
  "length (context_of [ex_full, ex_full]) \<le> 2 * chunk_size + 5
   \<and> (\<exists>a. answer (fst (handleAsk js_real ex_net_down ex_state [])) = Some a
          \<and> snd (handleAsk js_real ex_net_down ex_state [])
              = [EmbedRequest ''How do I close the store?'',
                 AnswerRequest (context_of (sources a)) ''How do I close the store?''])"
proof -
  have small: "\<forall>c \<in> set [ex_full, ex_full]. length (chunk.text c) \<le> chunk_size"
    by (simp add: ex_full_def chunk_size_def)
  have asked: "trim (query ex_state) \<noteq> []"
    by (simp add: trim_ex)
  note inst = context_assembly [of ex_full ex_full "[]" "[ex_full, ex_full]" ex_state js_real
      ex_net_down "[]"]
  from inst small
  have "length (context_of [ex_full, ex_full])
        \<le> length [ex_full, ex_full] * chunk_size + 5 * (length [ex_full, ex_full] - 1)"
    by blast
  then have "length (context_of [ex_full, ex_full]) \<le> 2 * chunk_size + 5"
    by simp
  moreover from inst asked
  have "\<exists>a. answer (fst (handleAsk js_real ex_net_down ex_state [])) = Some a
          \<and> snd (handleAsk js_real ex_net_down ex_state [])
              = [] @ [EmbedRequest (trim (query ex_state)),
                      AnswerRequest (context_of (sources a)) (trim (query ex_state))]"
    by blast
  ultimately show ?thesis
    by (simp add: trim_ex)
qed

text \<open>
  \<^bold>\<open>C6\<close> as stated fails: a generation provider that answers 200 with a JSON body
  without \<^verbatim>\<open>answer\<close> has sent a malformed body, and the text of the answer is
  \<^verbatim>\<open>undefined\<close>, not the fixed sentence.
\<close>

theorem generation_counterexample:
  "provider_failure (answer_api ex_net_shape
      (context_of [with_score ex_store 2, with_score ex_bread 0]) ''How do I close the store?'')
   \<and> handleAsk js_real ex_net_shape ex_state [] =
       (ex_state\<lparr>answer := Some \<lparr>answer_text = Undefined,
                                 sources = [with_score ex_store 2, with_score ex_bread 0]\<rparr>\<rparr>,
        [EmbedRequest ''How do I close the store?'',
         AnswerRequest (context_of [with_score ex_store 2, with_score ex_bread 0])
           ''How do I close the store?''])
   \<and> (Undefined :: string jsval) \<noteq> Val fallback_answer"
proof -
  have "fst (callAnswerAPI ex_net_shape ctx q rs) = Undefined" for ctx q rs
    using callAnswerAPI_parsed [of ex_net_shape ctx q 200 Undefined rs]
    by (simp add: ex_net_shape_def ok_def)
  then have "handleAsk js_real ex_net_shape ex_state [] =
       (ex_state\<lparr>answer := Some \<lparr>answer_text = Undefined,
                                 sources = [with_score ex_store 2, with_score ex_bread 0]\<rparr>\<rparr>,
        [EmbedRequest ''How do I close the store?'',
         AnswerRequest (context_of [with_score ex_store 2, with_score ex_bread 0])
           ''How do I close the store?''])"
    using scoreChunks_fallback [of Undefined js_real "''How do I close the store?''" "index ex_state"]
      scoreChunks_fallback [of Null js_real "''How do I close the store?''" "index ex_state"]
      ex_scored ex_top
    by (simp add: handleAsk_asked trim_ex Let_def ex_shape_embedding)
  then show ?thesis
    by (simp add: ex_net_shape_def ok_def)
qed

text \<open>
  \<^bold>\<open>C6, amended.\<close> When the generation provider fails with a network error, with a status
  that is not a success status, or with a body that is not JSON or is the JSON
  \<^verbatim>\<open>null\<close>, the ask completes: the text of the answer is the fixed sentence, and its
  sources are the top chunks whose context was sent. When the provider answers with a
  success status and another JSON body, the ask completes with the same sources, and the
  text of the answer is the \<^verbatim>\<open>answer\<close> property of the body as it is.
\<close>

theorem generation_failure:
  assumes "question = trim (query st)" and "question \<noteq> []"
    and "tops = top_chunks A (scoreChunks A (fst (fetchEmbedding net question reqs)) question (index st))"
  shows "(caught_failure (answer_api net (context_of tops) question) \<longrightarrow>
            handleAsk A net st reqs =
              (st\<lparr>answer := Some \<lparr>answer_text = Val fallback_answer, sources = tops\<rparr>\<rparr>,
               reqs @ [EmbedRequest question, AnswerRequest (context_of tops) question]))
       \<and> (\<forall>status v. answer_api net (context_of tops) question = Http status (JsonData v)
              \<and> ok status \<longrightarrow>
            handleAsk A net st reqs =
              (st\<lparr>answer := Some \<lparr>answer_text = v, sources = tops\<rparr>\<rparr>,
               reqs @ [EmbedRequest question, AnswerRequest (context_of tops) question]))"
  using assms by (simp add: handleAsk_asked Let_def callAnswerAPI_caught callAnswerAPI_parsed)

theorem generation_failure_witness:
  "handleAsk js_real ex_net_down ex_state [] =
     (ex_state\<lparr>answer := Some \<lparr>answer_text = Val fallback_answer,
                               sources = [with_score ex_store 2, with_score ex_bread 0]\<rparr>\<rparr>,
      [EmbedRequest ''How do I close the store?'',
       AnswerRequest (context_of [with_score ex_store 2, with_score ex_bread 0])
         ''How do I close the store?''])"
proof -
  have tops: "[with_score ex_store 2, with_score ex_bread 0]
      = top_chunks js_real
          (scoreChunks js_real (fst (fetchEmbedding ex_net_down ''How do I close the store?'' []))
             ''How do I close the store?'' (index ex_state))"
    by (simp add: ex_down_embedding ex_scored ex_top)
  have down: "caught_failure (answer_api ex_net_down
      (context_of [with_score ex_store 2, with_score ex_bread 0]) ''How do I close the store?'')"
    by (simp add: ex_net_down_def ok_def)
  have asked: "''How do I close the store?'' = trim (query ex_state)"
    by (simp add: trim_ex)
  from generation_failure [where reqs = "[]", OF asked _ tops] down show ?thesis
    by simp
qed




end
